theory Spec2Isabelle
  imports Main "HOL-Library.Char_ord" "HOL-Library.List_Lexorder" "HOL-Library.Sublist"
    "HOL-Library.AList"
begin

section \<open>The skill router builder (build-router.py)\<close>

text \<open>
  The program scans a directory tree for skill descriptors (files named SKILL.md), parses
  the metadata block at the top of each descriptor, removes records with duplicate
  names, reports warnings, and renders an index.

  Conventions of the embedding.
  \<^item> A Python \<open>str\<close> is a \<open>string\<close>. HOL characters are the code points 0 to 255, so the
    character classes of Python (whitespace, line boundaries) are given for this range.
  \<^item> A \<open>pathlib\<close> path is the list of its parts, the root (\<open>/\<close> or \<open>//\<close>) being the
    first part of an absolute path.
  \<^item> The file system is read through four operations (\<open>is_dir\<close>, \<open>is_file\<close>,
    \<open>read_text\<close>, \<open>listdir\<close>) collected in a record; the functions of the program that
    read the file system take it as an argument. Input and output errors of the
    operating system are outside the model.
  \<^item> Calls of the logger append a record to a log that is passed through the functions;
    calls of \<open>print\<close> append to the list of printed texts.
  \<^item> A dictionary is an association list in insertion order, or a map where the order
    does not matter.
\<close>

subsection \<open>Strings of the Python library\<close>

text \<open>Whitespace of \<open>str.strip\<close> and of the class \<open>\s\<close> in a regular expression.\<close>

definition is_space :: "char \<Rightarrow> bool" where
  "is_space c =
     (let n = (of_char c :: nat)
      in (9 \<le> n \<and> n \<le> 13) \<or> (28 \<le> n \<and> n \<le> 32) \<or> n = 133 \<or> n = 160)"

text \<open>Line boundaries of \<open>str.splitlines\<close>.\<close>

definition is_linebreak :: "char \<Rightarrow> bool" where
  "is_linebreak c =
     (let n = (of_char c :: nat)
      in (10 \<le> n \<and> n \<le> 13) \<or> (28 \<le> n \<and> n \<le> 30) \<or> n = 133)"

definition strip :: "string \<Rightarrow> string" where
  "strip s = rev (dropWhile is_space (rev (dropWhile is_space s)))"

text \<open>
  \<open>str.splitlines\<close>: the text is cut at every line boundary, a carriage return followed
  by a line feed is one boundary, and no empty line is added after a final boundary.
  The first argument holds the characters of the current line, last first.
\<close>

fun splitlines_from :: "string \<Rightarrow> string \<Rightarrow> string list" where
  "splitlines_from cur [] = (if cur = [] then [] else [rev cur])"
| "splitlines_from cur [c] = (if is_linebreak c then [rev cur] else [rev (c # cur)])"
| "splitlines_from cur (c # d # cs) =
     (if c = CHR 0x0D \<and> d = CHR 0x0A then rev cur # splitlines_from [] cs
      else if is_linebreak c then rev cur # splitlines_from [] (d # cs)
      else splitlines_from (c # cur) (d # cs))"

definition splitlines :: "string \<Rightarrow> string list" where
  "splitlines s = splitlines_from [] s"

text \<open>\<open>line.partition(sep)\<close> for a separator of one character: the parts before and after
  its first occurrence (the whole line and the empty string when it does not occur).\<close>

definition str_partition :: "char \<Rightarrow> string \<Rightarrow> string \<times> string" where
  "str_partition sep line =
     (takeWhile (\<lambda>c. c \<noteq> sep) line, tl (dropWhile (\<lambda>c. c \<noteq> sep) line))"

text \<open>\<open>sep.join(xs)\<close>.\<close>

fun join :: "string \<Rightarrow> string list \<Rightarrow> string" where
  "join sep [] = []"
| "join sep [x] = x"
| "join sep (x # y # ys) = x @ sep @ join sep (y # ys)"

text \<open>
  \<open>s.replace(old, new)\<close>: every occurrence of \<open>old\<close>, found from left to right without
  overlap, is replaced. The counter is the number of characters of a found occurrence
  that are still to be skipped.
\<close>

fun replace_from :: "nat \<Rightarrow> string \<Rightarrow> string \<Rightarrow> string \<Rightarrow> string" where
  "replace_from k old new [] = []"
| "replace_from (Suc k) old new (c # cs) = replace_from k old new cs"
| "replace_from 0 old new (c # cs) =
     (if prefix old (c # cs) then new @ replace_from (length old - 1) old new cs
      else c # replace_from 0 old new cs)"

definition replace :: "string \<Rightarrow> string \<Rightarrow> string \<Rightarrow> string" where
  "replace old new s =
     (if old = [] then new @ concat (map (\<lambda>c. c # new) s) else replace_from 0 old new s)"

text \<open>The decimal digits of a natural number, as \<open>str\<close> and the f-strings print it.\<close>

fun str_nat :: "nat \<Rightarrow> string" where
  "str_nat n =
     (if n < 10 then [char_of (48 + n)]
      else str_nat (n div 10) @ [char_of (48 + n mod 10)])"

declare str_nat.simps [simp del]

text \<open>\<open>s.ljust(width)\<close>, the padding of the format \<open>{s:<width}\<close>.\<close>

definition ljust :: "nat \<Rightarrow> string \<Rightarrow> string" where
  "ljust width s = s @ replicate (width - length s) CHR '' ''"

subsection \<open>Paths and the file system\<close>

type_synonym path = "string list"

text \<open>\<open>p / n\<close> for a name \<open>n\<close> without separator.\<close>

definition child :: "path \<Rightarrow> string \<Rightarrow> path" where
  "child p n = p @ [n]"

text \<open>The root of an absolute POSIX path is \<open>/\<close>, or \<open>//\<close> when the path is written with
  exactly two leading slashes.\<close>

definition is_root :: "string \<Rightarrow> bool" where
  "is_root r = (r = ''/'' \<or> r = ''//'')"

text \<open>\<open>p.name\<close>: the last part, empty for a root and for the empty path.\<close>

definition path_name :: "path \<Rightarrow> string" where
  "path_name p = (if p = [] \<or> (length p = 1 \<and> is_root (hd p)) then [] else last p)"

text \<open>\<open>str(p)\<close>: the root, then the other parts joined by slashes.\<close>

definition str_path :: "path \<Rightarrow> string" where
  "str_path p =
     (case p of
        [] \<Rightarrow> ''.''
      | r # ps \<Rightarrow> if is_root r then r @ join ''/'' ps else join ''/'' (r # ps))"

record filesys =
  is_dir :: "path \<Rightarrow> bool"
  is_file :: "path \<Rightarrow> bool"
  read_text :: "path \<Rightarrow> string"
  listdir :: "path \<Rightarrow> string list"

text \<open>\<open>p.iterdir()\<close> yields \<open>p / n\<close> for every entry \<open>n\<close>, in the order of the system;
  \<open>sorted\<close> puts paths in the order of their parts.\<close>

definition iterdir :: "filesys \<Rightarrow> path \<Rightarrow> path list" where
  "iterdir fs p = map (child p) (listdir fs p)"

subsection \<open>Records and constants\<close>

record Skill =
  name :: string
  path :: path
  description :: "string option"
  helpers :: "string list"
  warnings :: "string list"

definition IGNORED_DIRS :: "string set" where
  "IGNORED_DIRS =
     {''_router'', ''.git'', ''__pycache__'', ''node_modules'', ''.venv'', ''venv'', ''.hatch''}"

definition HELPER_DIRS :: "string set" where
  "HELPER_DIRS = {''scripts'', ''references'', ''assets''}"

text \<open>
  A record of the logger. The conflict warning of \<open>check_conflicts\<close> is kept with its
  three arguments (the name, the path of the dropped record, the path registered
  first): the literal of its message holds characters beyond code point 255.
\<close>

datatype log_record =
    Debug string
  | Info string
  | Warning string
  | Error string
  | ConflictWarning string path path

subsection \<open>parse_frontmatter\<close>

text \<open>
  The pattern is \<open>^---\s*\n(.*?)\n---\<close>, matched at the start of the text with DOTALL.
  \<open>match_body\<close> is the lazy group followed by a line feed and the delimiter: the shortest
  body wins. \<open>match_space\<close> is the greedy whitespace followed by a line feed: the longest
  run of whitespace is tried first, and the matcher backs off one character at a time.
\<close>

fun match_body :: "string \<Rightarrow> string option" where
  "match_body [] = None"
| "match_body (c # cs) =
     (if prefix [CHR 0x0A, CHR ''-'', CHR ''-'', CHR ''-''] (c # cs) then Some []
      else map_option (Cons c) (match_body cs))"

fun match_space :: "string \<Rightarrow> string option" where
  "match_space [] = None"
| "match_space (c # cs) =
     (if is_space c then
        (case match_space cs of
           Some body \<Rightarrow> Some body
         | None \<Rightarrow> if c = CHR 0x0A then match_body cs else None)
      else None)"

definition match_frontmatter :: "string \<Rightarrow> string option" where
  "match_frontmatter content =
     (if prefix ''---'' content then match_space (drop 3 content) else None)"

definition frontmatter_line :: "(string \<times> string) list \<Rightarrow> string \<Rightarrow> (string \<times> string) list" where
  "frontmatter_line frontmatter line =
     (if CHR '':'' \<in> set line then
        (let (key, val) = str_partition CHR '':'' line
         in AList.update (strip key) (strip val) frontmatter)
      else frontmatter)"

definition parse_frontmatter :: "string \<Rightarrow> (string \<times> string) list" where
  "parse_frontmatter content =
     (case match_frontmatter content of
        None \<Rightarrow> []
      | Some body \<Rightarrow> foldl frontmatter_line [] (splitlines body))"

subsection \<open>validate_skills and check_conflicts\<close>

fun validate_warnings :: "Skill \<Rightarrow> string list \<Rightarrow> nat \<times> log_record list \<Rightarrow> nat \<times> log_record list" where
  "validate_warnings skill [] st = st"
| "validate_warnings skill (warning # rest) (warning_count, lg) =
     validate_warnings skill rest
       (warning_count + 1, lg @ [Warning (name skill @ '': '' @ warning)])"

fun validate_loop :: "Skill list \<Rightarrow> nat \<times> log_record list \<Rightarrow> nat \<times> log_record list" where
  "validate_loop [] st = st"
| "validate_loop (skill # rest) st =
     validate_loop rest (validate_warnings skill (warnings skill) st)"

definition validate_skills :: "Skill list \<Rightarrow> log_record list \<Rightarrow> nat \<times> log_record list" where
  "validate_skills skills lg = validate_loop skills (0, lg)"

fun check_conflicts_loop ::
  "Skill list \<Rightarrow> (string \<rightharpoonup> path) \<times> Skill list \<times> log_record list \<Rightarrow> Skill list \<times> log_record list" where
  "check_conflicts_loop [] (seen, unique, lg) = (unique, lg)"
| "check_conflicts_loop (skill # rest) (seen, unique, lg) =
     (case seen (name skill) of
        Some registered \<Rightarrow>
          check_conflicts_loop rest
            (seen, unique, lg @ [ConflictWarning (name skill) (path skill) registered])
      | None \<Rightarrow>
          check_conflicts_loop rest
            (seen(name skill \<mapsto> path skill), unique @ [skill], lg))"

definition check_conflicts :: "Skill list \<Rightarrow> log_record list \<Rightarrow> Skill list \<times> log_record list" where
  "check_conflicts skills lg = check_conflicts_loop skills (Map.empty, [], lg)"

subsection \<open>should_ignore, find_helper_dirs and find_skill_in_dir\<close>

definition should_ignore :: "path \<Rightarrow> bool" where
  "should_ignore p = (path_name p \<in> IGNORED_DIRS \<or> prefix ''.'' (path_name p))"

text \<open>The loop runs over a set, in an order that Python does not fix; the result is
  sorted, so it is the sorted list of the names found.\<close>

definition find_helper_dirs :: "filesys \<Rightarrow> path \<Rightarrow> string list" where
  "find_helper_dirs fs skill_path =
     sorted_list_of_set {helper \<in> HELPER_DIRS. is_dir fs (child skill_path helper)}"

definition missing_name_warning :: "string \<Rightarrow> string" where
  "missing_name_warning folder =
     ''Missing '' @ [CHR 0x27] @ ''name'' @ [CHR 0x27] @ '' in frontmatter, using folder name: '' @ folder"

definition missing_description_warning :: string where
  "missing_description_warning =
     ''Missing '' @ [CHR 0x27] @ ''description'' @ [CHR 0x27] @ '' in frontmatter''"

text \<open>\<open>not v\<close> for the result \<open>v\<close> of \<open>dict.get\<close>: true for \<open>None\<close> and for the empty string.\<close>

definition falsy :: "string option \<Rightarrow> bool" where
  "falsy v = (case v of None \<Rightarrow> True | Some s \<Rightarrow> s = [])"

definition find_skill_in_dir :: "filesys \<Rightarrow> path \<Rightarrow> Skill option" where
  "find_skill_in_dir fs dir_path =
     (let skill_file = child dir_path ''SKILL.md''
      in if \<not> is_file fs skill_file then None
         else
           let content = read_text fs skill_file;
               frontmatter = parse_frontmatter content;
               (nm, warnings1) =
                 (case map_of frontmatter ''name'' of
                    Some n \<Rightarrow>
                      if n = [] then (path_name dir_path, [missing_name_warning (path_name dir_path)])
                      else (n, [])
                  | None \<Rightarrow> (path_name dir_path, [missing_name_warning (path_name dir_path)]));
               descr = map_of frontmatter ''description'';
               warnings2 =
                 (if falsy descr then warnings1 @ [missing_description_warning] else warnings1)
           in Some \<lparr>name = nm, path = dir_path, description = descr,
                     helpers = find_helper_dirs fs dir_path, warnings = warnings2\<rparr>)"

subsection \<open>scan_skills\<close>

text \<open>The inner loop, over the sorted entries of a group directory.\<close>

fun scan_group ::
  "filesys \<Rightarrow> path list \<Rightarrow> Skill list \<times> log_record list \<Rightarrow> Skill list \<times> log_record list" where
  "scan_group fs [] st = st"
| "scan_group fs (subitem # rest) (skills, lg) =
     (if \<not> is_dir fs subitem \<or> should_ignore subitem then scan_group fs rest (skills, lg)
      else
        (case find_skill_in_dir fs subitem of
           Some skill \<Rightarrow>
             scan_group fs rest
               (skills @ [skill],
                lg @ [Debug (''Found skill: '' @ name skill @ '' at '' @ str_path subitem)])
         | None \<Rightarrow> scan_group fs rest (skills, lg)))"

text \<open>The outer loop, over the sorted entries of the skills directory.\<close>

fun scan_items ::
  "filesys \<Rightarrow> path list \<Rightarrow> Skill list \<times> log_record list \<Rightarrow> Skill list \<times> log_record list" where
  "scan_items fs [] st = st"
| "scan_items fs (item # rest) (skills, lg) =
     (if \<not> is_dir fs item \<or> should_ignore item then scan_items fs rest (skills, lg)
      else
        (case find_skill_in_dir fs item of
           Some skill \<Rightarrow>
             scan_items fs rest
               (skills @ [skill],
                lg @ [Debug (''Found skill: '' @ name skill @ '' at '' @ str_path item)])
         | None \<Rightarrow>
             scan_items fs rest
               (scan_group fs (sort (iterdir fs item))
                  (skills, lg @ [Debug (''Scanning skill group: '' @ path_name item)]))))"

definition scan_skills ::
  "filesys \<Rightarrow> path \<Rightarrow> log_record list \<Rightarrow> Skill list \<times> log_record list" where
  "scan_skills fs skills_dir lg =
     (if \<not> is_dir fs skills_dir then
        ([], lg @ [Error (''Skills directory does not exist: '' @ str_path skills_dir)])
      else scan_items fs (sort (iterdir fs skills_dir)) ([], lg))"

subsection \<open>generate_router_content and list_skills\<close>

text \<open>\<open>home\<close> is the value of \<open>Path.home()\<close>.\<close>

definition router_line :: "path \<Rightarrow> Skill \<Rightarrow> string" where
  "router_line home skill =
     (let path_str = replace (str_path home) ''~'' (str_path (path skill))
      in name skill @ '': '' @ path_str @ ''/'')"

definition generate_router_content :: "path \<Rightarrow> Skill list \<Rightarrow> string" where
  "generate_router_content home skills =
     join [CHR 0x0A]
       ([''# Skill Router'', []] @ map (router_line home) (sort_key name skills) @ [[]])"

definition list_row :: "nat \<Rightarrow> Skill \<Rightarrow> string" where
  "list_row max_name skill =
     (let desc0 = (if falsy (description skill) then ''(no description)''
                   else (case description skill of Some d \<Rightarrow> d | None \<Rightarrow> []));
          desc = (if length desc0 > 60 then take 57 desc0 @ ''...'' else desc0);
          helpers_str = (if helpers skill \<noteq> [] then '' ['' @ join '', '' (helpers skill) @ '']'' else [])
      in ljust max_name (name skill) @ ''  '' @ desc @ helpers_str)"

definition list_skills :: "Skill list \<Rightarrow> string list \<Rightarrow> string list" where
  "list_skills skills out =
     (if skills = [] then out @ [''No skills found.'']
      else
        let max_name = Max (set (map (\<lambda>s. length (name s)) skills))
        in out
           @ [[CHR 0x0A] @ ljust max_name ''SKILL'' @ ''  DESCRIPTION'',
              replicate max_name CHR ''-'' @ ''  '' @ replicate 50 CHR ''-'']
           @ map (list_row max_name) (sort_key name skills)
           @ [[CHR 0x0A] @ ''Total: '' @ str_nat (length skills) @ '' skill(s)''])"

subsection \<open>backup_router and main\<close>

datatype fs_op = Copy path path | Mkdir path | WriteText path string

text \<open>\<open>p.with_suffix(s)\<close>: the suffix of the name starts at its last dot, when that dot is
  neither the first nor the last character.\<close>

definition with_suffix :: "path \<Rightarrow> string \<Rightarrow> path" where
  "with_suffix p s =
     (let nm = path_name p;
          ext = takeWhile (\<lambda>c. c \<noteq> CHR ''.'') (rev nm);
          stem = (if CHR ''.'' \<in> set nm \<and> ext \<noteq> [] \<and> length ext + 1 < length nm
                  then take (length nm - length ext - 1) nm else nm)
      in butlast p @ [stem @ s])"

record env =
  env_fs :: filesys
  env_home :: path
  env_now :: string

record args =
  args_skills_dir :: path
  args_list_skills :: bool
  args_validate :: bool
  args_dry_run :: bool
  args_backup :: bool
  args_verbose :: bool

record effects =
  logged :: "log_record list"
  printed :: "string list"
  written :: "fs_op list"

text \<open>\<open>env_now e\<close> is the time stamp that \<open>strftime\<close> returns.\<close>

definition backup_router :: "env \<Rightarrow> path \<Rightarrow> log_record list \<Rightarrow> fs_op list \<times> log_record list" where
  "backup_router e router_file lg =
     (if \<not> is_file (env_fs e) router_file then ([], lg)
      else
        let backup_path = with_suffix router_file (''.'' @ env_now e @ ''.bak'')
        in ([Copy router_file backup_path],
            lg @ [Info (''Backed up existing router to '' @ str_path backup_path)]))"

text \<open>The level of the logger is DEBUG with \<open>--verbose\<close> and INFO otherwise.\<close>

definition shown :: "bool \<Rightarrow> log_record list \<Rightarrow> log_record list" where
  "shown verbose lg = filter (\<lambda>r. verbose \<or> (case r of Debug _ \<Rightarrow> False | _ \<Rightarrow> True)) lg"

text \<open>
  \<open>main\<close> after the arguments are parsed: \<open>args_skills_dir\<close> is the directory after
  \<open>expanduser\<close>. The result is the return value of \<open>main\<close>, the exit status of the
  process, with what was logged, printed and written.
\<close>

definition main :: "env \<Rightarrow> args \<Rightarrow> int \<times> effects" where
  "main e a =
     (let skills_dir = args_skills_dir a;
          router_dir = child skills_dir ''_router'';
          router_file = child router_dir ''SKILL.md'';
          (skills0, lg1) = scan_skills (env_fs e) skills_dir [Info (''Scanning: '' @ str_path skills_dir)]
      in if skills0 = [] then
           (1, \<lparr>logged = shown (args_verbose a) (lg1 @ [Warning ''No skills found'']),
                printed = [], written = []\<rparr>)
         else
           let (skills, lg2) = check_conflicts skills0 lg1;
               (warning_count, lg3) = validate_skills skills lg2;
               lg4 = lg3 @ [Info (''Found '' @ str_nat (length skills) @ '' skill(s)'')];
               lg5 = (if warning_count \<noteq> 0
                      then lg4 @ [Info (''Validation: '' @ str_nat warning_count @ '' warning(s)'')]
                      else lg4)
           in if args_list_skills a then
                (0, \<lparr>logged = shown (args_verbose a) lg5, printed = list_skills skills [],
                     written = []\<rparr>)
              else if args_validate a then
                (if warning_count \<noteq> 0 then
                   (1, \<lparr>logged = shown (args_verbose a) lg5,
                        printed = [[CHR 0x0A] @ ''Validation completed with ''
                                     @ str_nat warning_count @ '' warning(s)''],
                        written = []\<rparr>)
                 else
                   (0, \<lparr>logged = shown (args_verbose a) lg5,
                        printed = [[CHR 0x0A] @ ''All skills valid''], written = []\<rparr>))
              else
                let content = generate_router_content (env_home e) skills
                in if args_dry_run a then
                     (0, \<lparr>logged = shown (args_verbose a) lg5,
                          printed = [[CHR 0x0A] @ ''--- Router content (dry run) ---'', content,
                                     ''--- End ---''],
                          written = []\<rparr>)
                   else
                     let (ops, lg6) = (if args_backup a then backup_router e router_file lg5
                                       else ([], lg5))
                     in (0, \<lparr>logged = shown (args_verbose a)
                                    (lg6 @ [Info (''Router written to '' @ str_path router_file)]),
                             printed = [],
                             written = ops @ [Mkdir router_dir, WriteText router_file content]\<rparr>))"

section \<open>Notions of the specification\<close>

subsection \<open>First records and later duplicates\<close>

text \<open>Record \<open>i\<close> of a list is the first with its name when no earlier record has it.\<close>

definition first_index :: "Skill list \<Rightarrow> nat \<Rightarrow> bool" where
  "first_index skills i = (\<forall>j<i. name (skills ! j) \<noteq> name (skills ! i))"

definition first_records :: "Skill list \<Rightarrow> Skill list" where
  "first_records skills = map (nth skills) (filter (first_index skills) [0..<length skills])"

text \<open>The path of the first record of the list with the name \<open>n\<close>.\<close>

definition registered_path :: "Skill list \<Rightarrow> string \<Rightarrow> path" where
  "registered_path skills n =
     (case find (\<lambda>t. name t = n) skills of Some t \<Rightarrow> path t | None \<Rightarrow> [])"

text \<open>The warning for record \<open>i\<close>: its name, its own path and the path registered first.\<close>

definition conflict_of :: "Skill list \<Rightarrow> nat \<Rightarrow> log_record" where
  "conflict_of skills i =
     ConflictWarning (name (skills ! i)) (path (skills ! i))
       (registered_path skills (name (skills ! i)))"

definition conflict_warnings :: "Skill list \<Rightarrow> log_record list" where
  "conflict_warnings skills =
     map (conflict_of skills) (filter (\<lambda>i. \<not> first_index skills i) [0..<length skills])"

text \<open>The dictionary \<open>seen\<close> after the records \<open>done\<close> have been processed.\<close>

definition seen_of :: "Skill list \<Rightarrow> (string \<rightharpoonup> path)" where
  "seen_of done = (\<lambda>n. map_option path (find (\<lambda>t. name t = n) done))"

text \<open>The warnings of the validator for a list of records.\<close>

definition validation_warnings :: "Skill list \<Rightarrow> log_record list" where
  "validation_warnings skills =
     concat (map (\<lambda>s. map (\<lambda>w. Warning (name s @ '': '' @ w)) (warnings s)) skills)"

subsection \<open>The record of a directory with a descriptor\<close>

text \<open>The mapping parsed from the descriptor of the directory \<open>d\<close>.\<close>

definition descriptor :: "filesys \<Rightarrow> path \<Rightarrow> (string \<times> string) list" where
  "descriptor fs d = parse_frontmatter (read_text fs (child d ''SKILL.md''))"

text \<open>
  The record that the specification gives for a directory with a descriptor: the name is
  the value of \<open>name\<close>, or the name of the directory when the value is missing or empty;
  a warning is attached for a missing or empty name, and one for a missing or empty
  description.
\<close>

definition located :: "filesys \<Rightarrow> path \<Rightarrow> Skill" where
  "located fs d =
     \<lparr>name = (case map_of (descriptor fs d) ''name'' of
                None \<Rightarrow> path_name d
              | Some n \<Rightarrow> if n = [] then path_name d else n),
      path = d,
      description = map_of (descriptor fs d) ''description'',
      helpers = find_helper_dirs fs d,
      warnings =
        (if falsy (map_of (descriptor fs d) ''name'')
         then [missing_name_warning (path_name d)] else [])
        @ (if falsy (map_of (descriptor fs d) ''description'')
           then [missing_description_warning] else [])\<rparr>"

subsection \<open>The scan\<close>

text \<open>The entries of a directory that the scan looks at: its directories that are not
  ignored, in the sorted order of the paths.\<close>

definition candidates :: "filesys \<Rightarrow> path \<Rightarrow> path list" where
  "candidates fs p =
     filter (\<lambda>c. is_dir fs c \<and> \<not> should_ignore c) (sort (iterdir fs p))"

text \<open>The records in the words of the specification: a candidate of the root that is a
  skill gives its record; any other candidate is a group and gives the records of its
  own candidates that are skills.\<close>

definition scanned :: "filesys \<Rightarrow> path \<Rightarrow> Skill list" where
  "scanned fs root =
     concat (map (\<lambda>item.
        case find_skill_in_dir fs item of
          Some skill \<Rightarrow> [skill]
        | None \<Rightarrow> List.map_filter (find_skill_in_dir fs) (candidates fs item))
      (candidates fs root))"

text \<open>Two file systems answer the locator alike for the directory \<open>d\<close>.\<close>

definition locator_same :: "filesys \<Rightarrow> filesys \<Rightarrow> path \<Rightarrow> bool" where
  "locator_same fs fs' d =
     (is_file fs (child d ''SKILL.md'') = is_file fs' (child d ''SKILL.md'')
      \<and> (is_file fs (child d ''SKILL.md'') \<longrightarrow>
            read_text fs (child d ''SKILL.md'') = read_text fs' (child d ''SKILL.md'')
            \<and> (\<forall>h \<in> HELPER_DIRS. is_dir fs (child d h) = is_dir fs' (child d h))))"

text \<open>
  Two file systems are alike where the scan of \<open>root\<close> looks: at the root and its
  entries; for an entry that is a directory and not ignored, at its descriptor and
  helpers; when it is no skill, at its entries, and for those that are directories and
  not ignored at their descriptor and helpers. Nothing is asked about the entries of a
  skill, of an ignored directory, or of a directory two levels below the root.
\<close>

definition same_where_scanned :: "path \<Rightarrow> filesys \<Rightarrow> filesys \<Rightarrow> bool" where
  "same_where_scanned root fs fs' =
     (is_dir fs root = is_dir fs' root
      \<and> (is_dir fs root \<longrightarrow>
           listdir fs root = listdir fs' root
           \<and> (\<forall>c \<in> set (listdir fs root).
                 is_dir fs (child root c) = is_dir fs' (child root c)
                 \<and> (is_dir fs (child root c) \<and> \<not> should_ignore (child root c) \<longrightarrow>
                      locator_same fs fs' (child root c)
                      \<and> (find_skill_in_dir fs (child root c) = None \<longrightarrow>
                           listdir fs (child root c) = listdir fs' (child root c)
                           \<and> (\<forall>g \<in> set (listdir fs (child root c)).
                                 is_dir fs (child (child root c) g)
                                   = is_dir fs' (child (child root c) g)
                                 \<and> (is_dir fs (child (child root c) g)
                                      \<and> \<not> should_ignore (child (child root c) g) \<longrightarrow>
                                      locator_same fs fs' (child (child root c) g))))))))"

subsection \<open>The top-level flow\<close>

text \<open>The records that the scan of the skills directory discovers, and the number of
  warnings attached to the records that survive the conflict resolver.\<close>

definition discovered :: "env \<Rightarrow> args \<Rightarrow> Skill list" where
  "discovered e a =
     (if is_dir (env_fs e) (args_skills_dir a) then scanned (env_fs e) (args_skills_dir a)
      else [])"

definition warning_total :: "env \<Rightarrow> args \<Rightarrow> nat" where
  "warning_total e a = sum_list (map (\<lambda>s. length (warnings s)) (first_records (discovered e a)))"

subsection \<open>The fenced block\<close>

text \<open>
  The fenced block in the words of the specification: the text begins with a line that
  holds only the delimiter; the body runs up to the first later line that holds only the
  delimiter.
\<close>

fun spec_body :: "string \<Rightarrow> string option" where
  "spec_body [] = None"
| "spec_body (c # cs) =
     (if prefix ''\<newline>---'' (c # cs)
         \<and> (drop 4 (c # cs) = [] \<or> prefix ''\<newline>'' (drop 4 (c # cs)))
      then Some []
      else map_option (Cons c) (spec_body cs))"

definition spec_fenced_block :: "string \<Rightarrow> string option" where
  "spec_fenced_block content =
     (if prefix ''---\<newline>'' content then spec_body (drop 4 content) else None)"



section \<open>Concrete inputs\<close>

text \<open>
  A skills directory with two skills (\<open>alpha\<close> with a full descriptor and two helper
  directories, \<open>beta\<close> with a descriptor without metadata), a skill \<open>empty\<close> whose
  descriptor has empty values, a group with a skill \<open>x\<close> named \<open>alpha\<close> again and a
  directory \<open>y\<close> that holds a descriptor one level further down, two ignored
  directories with descriptors, and a file.
\<close>

definition demo_root :: path where
  "demo_root = [''/'', ''root'', ''.agents'', ''skills'']"

definition demo_alpha_text :: string where
  "demo_alpha_text =
     ''---\<newline>name: alpha\<newline>description: does X\<newline>---\<newline># Alpha\<newline>''"

definition demo_empty_text :: string where
  "demo_empty_text = ''---\<newline>name:   \<newline>description:\<newline>---\<newline>''"

definition demo_fs :: filesys where
  "demo_fs =
     \<lparr>is_dir = (\<lambda>p. p \<in> set
         [demo_root,
          demo_root @ [''alpha''], demo_root @ [''alpha'', ''scripts''],
          demo_root @ [''alpha'', ''assets''],
          demo_root @ [''beta''],
          demo_root @ [''empty''],
          demo_root @ [''group''], demo_root @ [''group'', ''x''],
          demo_root @ [''group'', ''y''], demo_root @ [''group'', ''y'', ''deep''],
          demo_root @ [''.git''], demo_root @ [''_router'']]),
      is_file = (\<lambda>p. p \<in> set
         [demo_root @ [''alpha'', ''SKILL.md''], demo_root @ [''beta'', ''SKILL.md''],
          demo_root @ [''empty'', ''SKILL.md''],
          demo_root @ [''group'', ''x'', ''SKILL.md''],
          demo_root @ [''group'', ''y'', ''deep'', ''SKILL.md''],
          demo_root @ [''.git'', ''SKILL.md''],
          demo_root @ [''_router'', ''SKILL.md''], demo_root @ [''notes.txt'']]),
      read_text = (\<lambda>p.
         if p = demo_root @ [''alpha'', ''SKILL.md''] then demo_alpha_text
         else if p = demo_root @ [''beta'', ''SKILL.md''] then ''# Beta\<newline>''
         else if p = demo_root @ [''empty'', ''SKILL.md''] then demo_empty_text
         else if p = demo_root @ [''group'', ''x'', ''SKILL.md'']
           then ''---\<newline>name: alpha\<newline>---\<newline>''
         else ''---\<newline>name: other\<newline>description: d\<newline>---\<newline>''),
      listdir = (\<lambda>p.
         if p = demo_root
           then [''notes.txt'', ''group'', ''.git'', ''empty'', ''beta'', ''_router'', ''alpha'']
         else if p = demo_root @ [''group''] then [''y'', ''x'']
         else if p = demo_root @ [''group'', ''y''] then [''deep'']
         else [])\<rparr>"

definition demo_alpha :: Skill where
  "demo_alpha =
     \<lparr>name = ''alpha'', path = demo_root @ [''alpha''], description = Some ''does X'',
      helpers = [''assets'', ''scripts''], warnings = []\<rparr>"

definition demo_beta :: Skill where
  "demo_beta =
     \<lparr>name = ''beta'', path = demo_root @ [''beta''], description = None, helpers = [],
      warnings = [missing_name_warning ''beta'', missing_description_warning]\<rparr>"

definition demo_dup :: Skill where
  "demo_dup =
     \<lparr>name = ''alpha'', path = demo_root @ [''group'', ''x''], description = None,
      helpers = [], warnings = [missing_description_warning]\<rparr>"

text \<open>
  A second file system: the first one without the descriptor two levels below the group,
  with other entries in the skill \<open>alpha\<close> and in the ignored directory \<open>.git\<close>, and
  with another text where the first has no file.
\<close>

definition demo_fs2 :: filesys where
  "demo_fs2 =
     \<lparr>is_dir = (\<lambda>p. is_dir demo_fs p \<and> p \<noteq> demo_root @ [''group'', ''y'', ''deep'']),
      is_file = (\<lambda>p. is_file demo_fs p
                   \<and> p \<noteq> demo_root @ [''group'', ''y'', ''deep'', ''SKILL.md'']),
      read_text = (\<lambda>p. if is_file demo_fs p then read_text demo_fs p else ''gone''),
      listdir = (\<lambda>p.
         if p = demo_root @ [''alpha''] then [''scripts'', ''assets'', ''more'']
         else if p = demo_root @ [''.git''] then [''objects'']
         else if p = demo_root @ [''group'', ''y''] then []
         else listdir demo_fs p)\<rparr>"

definition demo_empty :: Skill where
  "demo_empty =
     \<lparr>name = ''empty'', path = demo_root @ [''empty''], description = Some [],
      helpers = [],
      warnings = [missing_name_warning ''empty'', missing_description_warning]\<rparr>"

text \<open>A skill in a folder whose name begins like the last part of the home directory
  \<open>/root\<close>, and a skill below a directory \<open>/srv/home/u\<close> for the home directory
  \<open>/home/u\<close>.\<close>

definition demo_rootcause :: Skill where
  "demo_rootcause =
     \<lparr>name = ''rootcause'', path = demo_root @ [''rootcause''], description = Some ''why'',
      helpers = [], warnings = []\<rparr>"

definition demo_srv :: Skill where
  "demo_srv =
     \<lparr>name = ''x'', path = [''/'', ''srv'', ''home'', ''u'', ''skills'', ''x''],
      description = Some ''d'', helpers = [], warnings = []\<rparr>"

definition demo_env :: env where
  "demo_env = \<lparr>env_fs = demo_fs, env_home = [''/'', ''root''], env_now = ''20240101_120000''\<rparr>"

text \<open>The arguments of a run on a directory that does not exist.\<close>

definition demo_nowhere :: args where
  "demo_nowhere =
     \<lparr>args_skills_dir = demo_root @ [''nowhere''], args_list_skills = False,
      args_validate = False, args_dry_run = False, args_backup = False,
      args_verbose = False\<rparr>"

text \<open>A tree with one skill whose descriptor has a name and no description, so with one
  warning, and a run with \<open>--validate\<close> alone on it.\<close>

definition solo_fs :: filesys where
  "solo_fs =
     \<lparr>is_dir = (\<lambda>p. p \<in> set [[''/'', ''t''], [''/'', ''t'', ''solo'']]),
      is_file = (\<lambda>p. p = [''/'', ''t'', ''solo'', ''SKILL.md'']),
      read_text = (\<lambda>p. ''---\<newline>name: solo\<newline>---\<newline>''),
      listdir = (\<lambda>p. if p = [''/'', ''t''] then [''solo''] else [])\<rparr>"

definition solo_env :: env where
  "solo_env = \<lparr>env_fs = solo_fs, env_home = [''/'', ''root''], env_now = ''20240101_120000''\<rparr>"

definition solo_validate :: args where
  "solo_validate =
     \<lparr>args_skills_dir = [''/'', ''t''], args_list_skills = False, args_validate = True,
      args_dry_run = False, args_backup = False, args_verbose = False\<rparr>"

section \<open>The validator\<close>

lemma validate_warnings_eq:
  "validate_warnings skill ws (n, lg) =
     (n + length ws, lg @ map (\<lambda>w. Warning (name skill @ '': '' @ w)) ws)"
  by (induction ws arbitrary: n lg) simp_all

lemma validate_loop_eq:
  "validate_loop skills (n, lg) =
     (n + sum_list (map (\<lambda>s. length (warnings s)) skills), lg @ validation_warnings skills)"
  by (induction skills arbitrary: n lg) (simp_all add: validate_warnings_eq validation_warnings_def)

lemma validate_skills_eq:
  "validate_skills skills lg =
     (sum_list (map (\<lambda>s. length (warnings s)) skills), lg @ validation_warnings skills)"
  by (simp add: validate_skills_def validate_loop_eq)

text \<open>
  Claim C7. For every list of records the validator logs, record by record and in order,
  one warning for each warning attached to the record, and returns the number of these
  warnings, the sum of the lengths of the warning lists. It returns the count and the
  log only: the records are values that it reads.
\<close>

theorem validate_skills_counts:
  "fst (validate_skills skills lg) = sum_list (map (\<lambda>s. length (warnings s)) skills)
   \<and> snd (validate_skills skills lg)
       = lg @ concat (map (\<lambda>s. map (\<lambda>w. Warning (name s @ '': '' @ w)) (warnings s)) skills)
   \<and> length (snd (validate_skills skills lg)) = length lg + fst (validate_skills skills lg)"
  by (simp add: validate_skills_eq validation_warnings_def length_concat comp_def)

section \<open>The conflict resolver\<close>

lemma find_append_eq:
  "find P (xs @ ys) = (case find P xs of None \<Rightarrow> find P ys | Some x \<Rightarrow> Some x)"
  by (induction xs) simp_all

lemma find_None_names: "find (\<lambda>t. name t = n) xs = None \<longleftrightarrow> n \<notin> name ` set xs"
  by (auto simp: find_None_iff)

lemma find_Some_names: "find (\<lambda>t. name t = n) xs = Some t \<Longrightarrow> n \<in> name ` set xs"
  by (auto simp: find_Some_iff image_iff)

lemma first_index_append: "i < length xs \<Longrightarrow> first_index (xs @ ys) i = first_index xs i"
  by (simp add: first_index_def nth_append)

lemma first_index_last: "first_index (xs @ [s]) (length xs) \<longleftrightarrow> name s \<notin> name ` set xs"
  by (auto simp: first_index_def nth_append in_set_conv_nth image_iff) (metis nth_mem)

lemma registered_path_append:
  "n \<in> name ` set xs \<Longrightarrow> registered_path (xs @ ys) n = registered_path xs n"
  by (auto simp: registered_path_def find_append_eq find_None_names split: option.splits)

lemma conflict_of_append: "i < length xs \<Longrightarrow> conflict_of (xs @ ys) i = conflict_of xs i"
  by (simp add: conflict_of_def nth_append registered_path_append)

lemma first_records_snoc:
  "first_records (xs @ [s]) = first_records xs @ (if name s \<in> name ` set xs then [] else [s])"
proof -
  have f: "filter (first_index (xs @ [s])) [0..<length xs]
         = filter (first_index xs) [0..<length xs]"
    by (rule filter_cong) (simp_all add: first_index_append)
  have m: "map (nth (xs @ [s])) (filter (first_index xs) [0..<length xs])
         = map (nth xs) (filter (first_index xs) [0..<length xs])"
    by (rule map_cong) (simp_all add: nth_append)
  show ?thesis
    by (simp add: first_records_def f m first_index_last)
qed

lemma conflict_warnings_snoc:
  "conflict_warnings (xs @ [s]) = conflict_warnings xs @
     (if name s \<in> name ` set xs
      then [ConflictWarning (name s) (path s) (registered_path xs (name s))] else [])"
proof -
  have f: "filter (\<lambda>i. \<not> first_index (xs @ [s]) i) [0..<length xs]
         = filter (\<lambda>i. \<not> first_index xs i) [0..<length xs]"
    by (rule filter_cong) (simp_all add: first_index_append)
  have m: "map (conflict_of (xs @ [s])) (filter (\<lambda>i. \<not> first_index xs i) [0..<length xs])
         = map (conflict_of xs) (filter (\<lambda>i. \<not> first_index xs i) [0..<length xs])"
    by (rule map_cong) (simp_all add: conflict_of_append)
  have c: "name s \<in> name ` set xs \<Longrightarrow>
      conflict_of (xs @ [s]) (length xs)
        = ConflictWarning (name s) (path s) (registered_path xs (name s))"
    by (simp add: conflict_of_def registered_path_append)
  show ?thesis
    by (simp add: conflict_warnings_def f m first_index_last c)
qed

lemma seen_of_snoc:
  "seen_of (xs @ [s])
     = (if name s \<in> name ` set xs then seen_of xs else (seen_of xs)(name s \<mapsto> path s))"
  by (auto simp: seen_of_def find_append_eq fun_eq_iff find_None_names
      split: option.splits dest: find_Some_names)

lemma seen_of_lookup:
  "seen_of xs n = (if n \<in> name ` set xs then Some (registered_path xs n) else None)"
  by (auto simp: seen_of_def registered_path_def find_None_names split: option.splits)

text \<open>The invariant of the loop: after the records \<open>done\<close>, the dictionary holds the first
  path of every name seen, and the list holds the first records.\<close>

lemma check_conflicts_loop_eq:
  "check_conflicts_loop rest (seen_of done, first_records done, lg @ conflict_warnings done)
     = (first_records (done @ rest), lg @ conflict_warnings (done @ rest))"
proof (induction rest arbitrary: "done")
  case Nil
  show ?case by simp
next
  case (Cons s rest)
  have "check_conflicts_loop (s # rest)
          (seen_of done, first_records done, lg @ conflict_warnings done)
      = check_conflicts_loop rest
          (seen_of (done @ [s]), first_records (done @ [s]), lg @ conflict_warnings (done @ [s]))"
    by (cases "name s \<in> name ` set done")
       (simp_all add: seen_of_lookup first_records_snoc conflict_warnings_snoc seen_of_snoc)
  then show ?case using Cons.IH [of "done @ [s]"] by simp
qed

lemma check_conflicts_eq:
  "check_conflicts skills lg = (first_records skills, lg @ conflict_warnings skills)"
  using check_conflicts_loop_eq [of skills "[]" lg]
  by (simp add: check_conflicts_def seen_of_def first_records_def conflict_warnings_def)

lemma distinct_first_records: "distinct (map name (first_records skills))"
proof -
  let ?is = "filter (first_index skills) [0..<length skills]"
  have "inj_on (\<lambda>i. name (skills ! i)) (set ?is)"
  proof (rule inj_onI)
    fix i j
    assume a: "i \<in> set ?is" "j \<in> set ?is" "name (skills ! i) = name (skills ! j)"
    show "i = j"
    proof (rule ccontr)
      assume "i \<noteq> j"
      then consider "i < j" | "j < i" by linarith
      then show False using a by cases (auto simp: first_index_def)
    qed
  qed
  then show ?thesis by (simp add: first_records_def distinct_map comp_def)
qed

lemma subseq_first_records: "subseq (first_records skills) skills"
proof (induction skills rule: rev_induct)
  case Nil
  show ?case by (simp add: first_records_def)
next
  case (snoc s xs)
  then show ?case
    by (auto simp: first_records_snoc intro: list_emb_append_mono subseq_rev_drop_many)
qed

lemma names_first_records: "name ` set (first_records skills) = name ` set skills"
proof (induction skills rule: rev_induct)
  case Nil
  show ?case by (simp add: first_records_def)
next
  case (snoc s xs)
  then show ?case by (auto simp: first_records_snoc)
qed

lemma length_first_records:
  "length (conflict_warnings skills) + length (first_records skills) = length skills"
proof (induction skills rule: rev_induct)
  case Nil
  show ?case by (simp add: first_records_def conflict_warnings_def)
next
  case (snoc s xs)
  then show ?case by (simp add: first_records_snoc conflict_warnings_snoc)
qed

lemma first_records_first:
  assumes "s \<in> set (first_records skills)"
  shows "find (\<lambda>t. name t = name s) skills = Some s"
proof -
  from assms obtain i where i: "i < length skills" "first_index skills i" "s = skills ! i"
    by (auto simp: first_records_def)
  then show ?thesis
    by (auto simp: find_Some_iff first_index_def intro!: exI [of _ i])
qed

text \<open>
  Claim C3. For every list of records in discovery order, the conflict resolver returns
  the records that are the first with their name, in the order of the input (a
  subsequence of the input), so at most one record for each name and one for every name of
  the input, each being the first record of the input with its name; and for every other
  record it logs one conflict warning, with the name, the path of the dropped record and
  the path registered first, in the order of the input.
\<close>

theorem check_conflicts_keeps_first:
  "check_conflicts skills lg = (first_records skills, lg @ conflict_warnings skills)
   \<and> subseq (first_records skills) skills
   \<and> distinct (map name (first_records skills))
   \<and> name ` set (first_records skills) = name ` set skills
   \<and> (\<forall>s \<in> set (first_records skills). find (\<lambda>t. name t = name s) skills = Some s)
   \<and> length (conflict_warnings skills) + length (first_records skills) = length skills"
  by (simp add: check_conflicts_eq subseq_first_records distinct_first_records
      names_first_records first_records_first length_first_records)

theorem check_conflicts_keeps_first_witness:
  "check_conflicts [demo_alpha, demo_beta, demo_dup] []
     = ([demo_alpha, demo_beta],
        [ConflictWarning ''alpha'' (demo_root @ [''group'', ''x'']) (demo_root @ [''alpha''])])"
proof -
  have f: "first_records [demo_alpha, demo_beta, demo_dup] = [demo_alpha, demo_beta]"
    by code_simp
  have c: "conflict_warnings [demo_alpha, demo_beta, demo_dup]
      = [ConflictWarning ''alpha'' (demo_root @ [''group'', ''x'']) (demo_root @ [''alpha''])]"
    by code_simp
  show ?thesis
    using check_conflicts_keeps_first [of "[demo_alpha, demo_beta, demo_dup]" "[]"]
    by (simp add: f c)
qed

section \<open>The resolver and the validator leave the records as they are\<close>

lemma sum_list_subseq_le:
  fixes f :: "'a \<Rightarrow> nat"
  shows "subseq xs ys \<Longrightarrow> sum_list (map f xs) \<le> sum_list (map f ys)"
  by (induction rule: list_emb.induct) simp_all

lemma conflict_warnings_shape:
  "c \<in> set (conflict_warnings skills) \<Longrightarrow> \<exists>n p q. c = ConflictWarning n p q"
  by (auto simp: conflict_warnings_def conflict_of_def)

text \<open>
  Claim C8. Records are values: \<open>check_conflicts\<close> and \<open>validate_skills\<close> have no
  assignment to a field of a record, so their embedding returns a list, a count and a
  log, and no record. What the result says about the records: the resolver returns a
  subsequence of its input, so every record it returns is a record of the input with
  its five fields as they were; the conflict warnings are records of the log, one for
  each dropped record, and are stored on no record, so the validator counts on the
  result only warnings that the records of the input carried.
\<close>

theorem resolver_and_validator_frame:
  "subseq (fst (check_conflicts skills lg)) skills
   \<and> (\<forall>u \<in> set (fst (check_conflicts skills lg)). \<exists>s \<in> set skills.
          name u = name s \<and> path u = path s \<and> description u = description s
          \<and> helpers u = helpers s \<and> warnings u = warnings s)
   \<and> (\<exists>cs. snd (check_conflicts skills lg) = lg @ cs
          \<and> length cs + length (fst (check_conflicts skills lg)) = length skills
          \<and> (\<forall>c \<in> set cs. \<exists>n p q. c = ConflictWarning n p q))
   \<and> fst (validate_skills (fst (check_conflicts skills lg)) lg')
        = sum_list (map (\<lambda>s. length (warnings s)) (fst (check_conflicts skills lg)))
   \<and> fst (validate_skills (fst (check_conflicts skills lg)) lg')
        \<le> sum_list (map (\<lambda>s. length (warnings s)) skills)"
proof -
  have sub: "subseq (first_records skills) skills" by (rule subseq_first_records)
  have mem: "\<forall>u \<in> set (first_records skills). \<exists>s \<in> set skills.
          name u = name s \<and> path u = path s \<and> description u = description s
          \<and> helpers u = helpers s \<and> warnings u = warnings s"
    by (auto simp: first_records_def)
  have "sum_list (map (\<lambda>s. length (warnings s)) (first_records skills))
      \<le> sum_list (map (\<lambda>s. length (warnings s)) skills)"
    using sub by (rule sum_list_subseq_le)
  then show ?thesis
    using sub mem
    by (auto simp: check_conflicts_eq validate_skills_eq length_first_records
        dest: conflict_warnings_shape)
qed

theorem resolver_and_validator_frame_witness:
  "fst (check_conflicts [demo_alpha, demo_beta, demo_dup] []) = [demo_alpha, demo_beta]
   \<and> subseq [demo_alpha, demo_beta] [demo_alpha, demo_beta, demo_dup]
   \<and> fst (validate_skills [demo_alpha, demo_beta] []) = 2"
proof -
  have f: "fst (check_conflicts [demo_alpha, demo_beta, demo_dup] []) = [demo_alpha, demo_beta]"
    by code_simp
  have w: "length (warnings demo_alpha) + length (warnings demo_beta) = 2"
    by code_simp
  show ?thesis
    using resolver_and_validator_frame [of "[demo_alpha, demo_beta, demo_dup]" "[]" "[]"]
    by (simp add: f w)
qed

section \<open>The skill locator\<close>

lemma warnings_differ: "missing_name_warning folder \<noteq> missing_description_warning"
  by (simp add: missing_name_warning_def missing_description_warning_def)

lemma helper_dirs_finite: "finite {helper \<in> HELPER_DIRS. P helper}"
  by (simp add: HELPER_DIRS_def)

lemma find_helper_dirs_props:
  "set (find_helper_dirs fs d) = {h \<in> HELPER_DIRS. is_dir fs (child d h)}
   \<and> sorted (find_helper_dirs fs d) \<and> distinct (find_helper_dirs fs d)"
  by (simp add: find_helper_dirs_def helper_dirs_finite)

lemma find_skill_in_dir_None:
  "\<not> is_file fs (child d ''SKILL.md'') \<Longrightarrow> find_skill_in_dir fs d = None"
  by (simp add: find_skill_in_dir_def)

lemma find_skill_in_dir_Some:
  assumes "is_file fs (child d ''SKILL.md'')"
  shows "find_skill_in_dir fs d = Some (located fs d)"
proof (cases "map_of (parse_frontmatter (read_text fs (child d ''SKILL.md''))) ''name''")
  case None
  with assms show ?thesis
    by (simp add: find_skill_in_dir_def located_def descriptor_def Let_def falsy_def)
next
  case (Some n)
  with assms show ?thesis
    by (simp add: find_skill_in_dir_def located_def descriptor_def Let_def falsy_def)
qed

lemma located_name_present:
  "map_of (descriptor fs d) ''name'' = Some n \<Longrightarrow> n \<noteq> [] \<Longrightarrow>
     name (located fs d) = n \<and> missing_name_warning (path_name d) \<notin> set (warnings (located fs d))"
  by (simp add: located_def falsy_def warnings_differ)

lemma located_name_missing:
  "falsy (map_of (descriptor fs d) ''name'') \<Longrightarrow>
     name (located fs d) = path_name d
     \<and> missing_name_warning (path_name d) \<in> set (warnings (located fs d))"
  by (auto simp: located_def falsy_def split: option.splits)

lemma located_description_missing:
  "falsy (map_of (descriptor fs d) ''description'') \<Longrightarrow>
     missing_description_warning \<in> set (warnings (located fs d))"
  by (simp add: located_def)

lemma located_description_present:
  "map_of (descriptor fs d) ''description'' = Some t \<Longrightarrow> t \<noteq> [] \<Longrightarrow>
     missing_description_warning \<notin> set (warnings (located fs d))"
  using warnings_differ [of "path_name d"] by (auto simp: located_def falsy_def)

lemma located_rest:
  "path (located fs d) = d
   \<and> description (located fs d) = map_of (descriptor fs d) ''description''
   \<and> helpers (located fs d) = find_helper_dirs fs d"
  by (simp add: located_def)


text \<open>
  Claim C1. For every directory: without a descriptor file the locator returns no record.
  With one it returns a record for this directory whose name is the value of \<open>name\<close>
  in the frontmatter when there is one (a value that is not empty; the empty value is
  treated further down), and the name of the directory with the fallback warning when there is
  none; the warning for the description is attached when there is no \<open>description\<close>
  and not attached when there is one that is not empty; the helpers are the names among
  scripts, references and assets that are directories in it, sorted and without
  repetition.
\<close>

theorem find_skill_in_dir_record:
  "(\<not> is_file fs (child d ''SKILL.md'') \<longrightarrow> find_skill_in_dir fs d = None)
   \<and> (is_file fs (child d ''SKILL.md'') \<longrightarrow>
        (\<exists>s. find_skill_in_dir fs d = Some s
           \<and> path s = d
           \<and> (\<forall>n. map_of (descriptor fs d) ''name'' = Some n \<and> n \<noteq> [] \<longrightarrow>
                  name s = n \<and> missing_name_warning (path_name d) \<notin> set (warnings s))
           \<and> (map_of (descriptor fs d) ''name'' = None \<longrightarrow>
                  name s = path_name d \<and> missing_name_warning (path_name d) \<in> set (warnings s))
           \<and> description s = map_of (descriptor fs d) ''description''
           \<and> (map_of (descriptor fs d) ''description'' = None \<longrightarrow>
                  missing_description_warning \<in> set (warnings s))
           \<and> (\<forall>t. map_of (descriptor fs d) ''description'' = Some t \<and> t \<noteq> [] \<longrightarrow>
                  missing_description_warning \<notin> set (warnings s))
           \<and> set (helpers s)
                = {h \<in> {''scripts'', ''references'', ''assets''}. is_dir fs (child d h)}
           \<and> sorted (helpers s) \<and> distinct (helpers s)))"
proof (intro conjI impI)
  assume "\<not> is_file fs (child d ''SKILL.md'')"
  then show "find_skill_in_dir fs d = None" by (rule find_skill_in_dir_None)
next
  assume f: "is_file fs (child d ''SKILL.md'')"
  let ?s = "located fs d"
  show "\<exists>s. find_skill_in_dir fs d = Some s
           \<and> path s = d
           \<and> (\<forall>n. map_of (descriptor fs d) ''name'' = Some n \<and> n \<noteq> [] \<longrightarrow>
                  name s = n \<and> missing_name_warning (path_name d) \<notin> set (warnings s))
           \<and> (map_of (descriptor fs d) ''name'' = None \<longrightarrow>
                  name s = path_name d \<and> missing_name_warning (path_name d) \<in> set (warnings s))
           \<and> description s = map_of (descriptor fs d) ''description''
           \<and> (map_of (descriptor fs d) ''description'' = None \<longrightarrow>
                  missing_description_warning \<in> set (warnings s))
           \<and> (\<forall>t. map_of (descriptor fs d) ''description'' = Some t \<and> t \<noteq> [] \<longrightarrow>
                  missing_description_warning \<notin> set (warnings s))
           \<and> set (helpers s)
                = {h \<in> {''scripts'', ''references'', ''assets''}. is_dir fs (child d h)}
           \<and> sorted (helpers s) \<and> distinct (helpers s)"
  proof (intro exI [of _ ?s] conjI allI impI)
    show "find_skill_in_dir fs d = Some ?s" using f by (rule find_skill_in_dir_Some)
    show "path ?s = d" by (simp add: located_rest)
    show "description ?s = map_of (descriptor fs d) ''description''" by (simp add: located_rest)
    show "set (helpers ?s) = {h \<in> {''scripts'', ''references'', ''assets''}. is_dir fs (child d h)}"
      using find_helper_dirs_props [of fs d] by (simp add: located_rest HELPER_DIRS_def)
    show "sorted (helpers ?s)" using find_helper_dirs_props [of fs d] by (simp add: located_rest)
    show "distinct (helpers ?s)" using find_helper_dirs_props [of fs d] by (simp add: located_rest)
  next
    fix n assume "map_of (descriptor fs d) ''name'' = Some n \<and> n \<noteq> []"
    then have *: "name ?s = n \<and> missing_name_warning (path_name d) \<notin> set (warnings ?s)"
      using located_name_present by blast
    from * show "name ?s = n" ..
    from * show "missing_name_warning (path_name d) \<notin> set (warnings ?s)" ..
  next
    assume "map_of (descriptor fs d) ''name'' = None"
    then have *: "name ?s = path_name d \<and> missing_name_warning (path_name d) \<in> set (warnings ?s)"
      by (intro located_name_missing) (simp add: falsy_def)
    from * show "name ?s = path_name d" ..
    from * show "missing_name_warning (path_name d) \<in> set (warnings ?s)" ..
  next
    assume "map_of (descriptor fs d) ''description'' = None"
    then show "missing_description_warning \<in> set (warnings ?s)"
      by (intro located_description_missing) (simp add: falsy_def)
  next
    fix t assume "map_of (descriptor fs d) ''description'' = Some t \<and> t \<noteq> []"
    then show "missing_description_warning \<notin> set (warnings ?s)"
      using located_description_present by blast
  qed
qed

theorem find_skill_in_dir_record_witness:
  "is_file demo_fs (child (demo_root @ [''beta'']) ''SKILL.md'')
   \<and> map_of (descriptor demo_fs (demo_root @ [''beta''])) ''name'' = None
   \<and> (\<exists>s. find_skill_in_dir demo_fs (demo_root @ [''beta'']) = Some s
          \<and> name s = ''beta'' \<and> missing_name_warning ''beta'' \<in> set (warnings s)
          \<and> missing_description_warning \<in> set (warnings s))
   \<and> \<not> is_file demo_fs (child (demo_root @ [''group'']) ''SKILL.md'')
   \<and> find_skill_in_dir demo_fs (demo_root @ [''group'']) = None"
proof -
  have b: "is_file demo_fs (child (demo_root @ [''beta'']) ''SKILL.md'')"
    "map_of (descriptor demo_fs (demo_root @ [''beta''])) ''name'' = None"
    "map_of (descriptor demo_fs (demo_root @ [''beta''])) ''description'' = None"
    "path_name (demo_root @ [''beta'']) = ''beta''"
    by code_simp+
  have g: "\<not> is_file demo_fs (child (demo_root @ [''group'']) ''SKILL.md'')"
    by code_simp
  have 1: "\<exists>s. find_skill_in_dir demo_fs (demo_root @ [''beta'']) = Some s
          \<and> name s = ''beta'' \<and> missing_name_warning ''beta'' \<in> set (warnings s)
          \<and> missing_description_warning \<in> set (warnings s)"
    using find_skill_in_dir_record [of demo_fs "demo_root @ [''beta'']"]
    by (simp only: b simp_thms) (elim exE conjE, intro exI conjI; assumption)
  have 2: "find_skill_in_dir demo_fs (demo_root @ [''group'']) = None"
    using find_skill_in_dir_record [of demo_fs "demo_root @ [''group'']"] g
    by simp
  show ?thesis
    by (intro conjI b(1) b(2) 1 2 g)
qed

lemma strip_spaces:
  assumes "\<forall>c \<in> set ws. is_space c"
  shows "strip ws = []"
proof -
  have d: "dropWhile is_space ws = []" using assms by simp
  show ?thesis by (simp add: strip_def d)
qed

text \<open>A line that holds a key, a colon and then only whitespace stores the empty string.\<close>

lemma frontmatter_line_empty_value:
  assumes "CHR '':'' \<notin> set key" "\<forall>c \<in> set ws. is_space c"
  shows "frontmatter_line fm (key @ CHR '':'' # ws) = AList.update (strip key) [] fm"
proof -
  have k: "\<forall>c \<in> set key. c \<noteq> CHR '':''" using assms(1) by auto
  have p: "str_partition CHR '':'' (key @ CHR '':'' # ws) = (key, ws)"
    using k by (simp add: str_partition_def takeWhile_append2 dropWhile_append2)
  show ?thesis
    by (simp add: frontmatter_line_def p strip_spaces [OF assms(2)])
qed

text \<open>
  Claim C10. For every directory with a descriptor whose mapping holds the empty string
  for \<open>name\<close> (a \<open>name\<close> line with nothing but whitespace after the colon), the locator
  returns the record it returns when the mapping has no \<open>name\<close>: the name is the name of
  the directory, and the warnings start with the fallback warning; and an empty value of
  \<open>description\<close> gives the warning of the missing description, as no value does.
\<close>

theorem find_skill_in_dir_empty_values:
  assumes "is_file fs (child d ''SKILL.md'')"
  shows "(map_of (descriptor fs d) ''name'' = Some [] \<or> map_of (descriptor fs d) ''name'' = None \<longrightarrow>
           (\<exists>s. find_skill_in_dir fs d = Some s \<and> name s = path_name d
              \<and> warnings s = missing_name_warning (path_name d)
                   # (if falsy (map_of (descriptor fs d) ''description'')
                      then [missing_description_warning] else [])))
       \<and> (map_of (descriptor fs d) ''description'' = Some []
            \<or> map_of (descriptor fs d) ''description'' = None \<longrightarrow>
           (\<exists>s. find_skill_in_dir fs d = Some s
              \<and> missing_description_warning \<in> set (warnings s)))"
proof (intro conjI impI)
  assume "map_of (descriptor fs d) ''name'' = Some [] \<or> map_of (descriptor fs d) ''name'' = None"
  then have "falsy (map_of (descriptor fs d) ''name'')" by (auto simp: falsy_def)
  then have "name (located fs d) = path_name d
     \<and> warnings (located fs d) = missing_name_warning (path_name d)
          # (if falsy (map_of (descriptor fs d) ''description'')
             then [missing_description_warning] else [])"
    using located_name_missing [of fs d] by (simp add: located_def)
  then show "\<exists>s. find_skill_in_dir fs d = Some s \<and> name s = path_name d
              \<and> warnings s = missing_name_warning (path_name d)
                   # (if falsy (map_of (descriptor fs d) ''description'')
                      then [missing_description_warning] else [])"
    using find_skill_in_dir_Some [OF assms] by simp
next
  assume "map_of (descriptor fs d) ''description'' = Some []
            \<or> map_of (descriptor fs d) ''description'' = None"
  then have "falsy (map_of (descriptor fs d) ''description'')" by (auto simp: falsy_def)
  then have "missing_description_warning \<in> set (warnings (located fs d))"
    by (rule located_description_missing)
  then show "\<exists>s. find_skill_in_dir fs d = Some s
              \<and> missing_description_warning \<in> set (warnings s)"
    using find_skill_in_dir_Some [OF assms] by simp
qed

theorem find_skill_in_dir_empty_values_witness:
  "is_file demo_fs (child (demo_root @ [''empty'']) ''SKILL.md'')
   \<and> read_text demo_fs (child (demo_root @ [''empty'']) ''SKILL.md'')
       = ''---\<newline>name:   \<newline>description:\<newline>---\<newline>''
   \<and> map_of (descriptor demo_fs (demo_root @ [''empty''])) ''name'' = Some []
   \<and> map_of (descriptor demo_fs (demo_root @ [''empty''])) ''description'' = Some []
   \<and> (\<exists>s. find_skill_in_dir demo_fs (demo_root @ [''empty'']) = Some s \<and> name s = ''empty''
          \<and> warnings s = [missing_name_warning ''empty'', missing_description_warning])"
proof -
  have e: "is_file demo_fs (child (demo_root @ [''empty'']) ''SKILL.md'')"
    by code_simp
  have t: "read_text demo_fs (child (demo_root @ [''empty'']) ''SKILL.md'')
       = ''---\<newline>name:   \<newline>description:\<newline>---\<newline>''"
    by code_simp
  have m: "map_of (descriptor demo_fs (demo_root @ [''empty''])) ''name'' = Some []"
    "map_of (descriptor demo_fs (demo_root @ [''empty''])) ''description'' = Some []"
    "path_name (demo_root @ [''empty'']) = ''empty''"
    by code_simp+
  show ?thesis
    using find_skill_in_dir_empty_values [OF e] by (simp add: e t m falsy_def)
qed

section \<open>The tree scanner\<close>

text \<open>The children of a directory come in the order of their names.\<close>

lemma child_less_iff: "child p a < child p b \<longleftrightarrow> a < b"
  by (induction p) (simp_all add: child_def)

lemma child_le_iff: "child p a \<le> child p b \<longleftrightarrow> a \<le> b"
  by (auto simp: le_less child_less_iff) (simp add: child_def)

lemma insort_children:
  "insort (child p a) (map (child p) ns) = map (child p) (insort a ns)"
  by (induction ns) (simp_all add: child_le_iff)

lemma sort_children: "sort (map (child p) ns) = map (child p) (sort ns)"
  by (induction ns) (simp_all add: insort_children)

lemma sort_iterdir: "sort (iterdir fs p) = map (child p) (sort (listdir fs p))"
  by (simp add: iterdir_def sort_children)

lemma set_candidates:
  "set (candidates fs p)
     = {child p n |n. n \<in> set (listdir fs p) \<and> is_dir fs (child p n) \<and> \<not> should_ignore (child p n)}"
  by (auto simp: candidates_def iterdir_def)

text \<open>The two loops.\<close>

lemma scan_group_records:
  "fst (scan_group fs items (skills, lg))
     = skills @ List.map_filter (find_skill_in_dir fs)
         (filter (\<lambda>c. is_dir fs c \<and> \<not> should_ignore c) items)"
  by (induction items arbitrary: skills lg) (auto simp: List.map_filter_simps split: option.splits)

lemma scan_items_records:
  "fst (scan_items fs items (skills, lg))
     = skills @ concat (map (\<lambda>item.
          case find_skill_in_dir fs item of
            Some skill \<Rightarrow> [skill]
          | None \<Rightarrow> List.map_filter (find_skill_in_dir fs) (candidates fs item))
        (filter (\<lambda>c. is_dir fs c \<and> \<not> should_ignore c) items))"
proof (induction items arbitrary: skills lg)
  case Nil
  show ?case by simp
next
  case (Cons item items)
  show ?case
  proof (cases "is_dir fs item \<and> \<not> should_ignore item")
    case False
    then show ?thesis using Cons.IH by auto
  next
    case True
    show ?thesis
    proof (cases "find_skill_in_dir fs item")
      case (Some skill)
      with True show ?thesis using Cons.IH by simp
    next
      case None
      obtain skills' lg' where g:
        "scan_group fs (sort (iterdir fs item))
           (skills, lg @ [Debug (''Scanning skill group: '' @ path_name item)]) = (skills', lg')"
        by (cases "scan_group fs (sort (iterdir fs item))
           (skills, lg @ [Debug (''Scanning skill group: '' @ path_name item)])")
      have "skills' = skills @ List.map_filter (find_skill_in_dir fs) (candidates fs item)"
        using scan_group_records [of fs "sort (iterdir fs item)" skills
            "lg @ [Debug (''Scanning skill group: '' @ path_name item)]"] g
        by (simp add: candidates_def)
      with True None g show ?thesis using Cons.IH [of skills' lg'] by simp
    qed
  qed
qed

lemma scan_skills_records:
  "fst (scan_skills fs root lg) = (if is_dir fs root then scanned fs root else [])"
  by (simp add: scan_skills_def scan_items_records scanned_def candidates_def)

text \<open>The scan asks the same questions of two file systems that are alike where it looks.\<close>

lemma find_helper_dirs_same:
  "\<forall>h \<in> HELPER_DIRS. is_dir fs (child d h) = is_dir fs' (child d h) \<Longrightarrow>
     find_helper_dirs fs d = find_helper_dirs fs' d"
proof -
  assume "\<forall>h \<in> HELPER_DIRS. is_dir fs (child d h) = is_dir fs' (child d h)"
  then have "{h \<in> HELPER_DIRS. is_dir fs (child d h)} = {h \<in> HELPER_DIRS. is_dir fs' (child d h)}"
    by blast
  then show ?thesis by (simp add: find_helper_dirs_def)
qed

lemma find_skill_in_dir_same:
  assumes "locator_same fs fs' d"
  shows "find_skill_in_dir fs d = find_skill_in_dir fs' d"
proof (cases "is_file fs (child d ''SKILL.md'')")
  case False
  with assms have "\<not> is_file fs' (child d ''SKILL.md'')" by (simp add: locator_same_def)
  with False show ?thesis by (simp add: find_skill_in_dir_None)
next
  case True
  with assms have f: "is_file fs' (child d ''SKILL.md'')"
    and r: "read_text fs (child d ''SKILL.md'') = read_text fs' (child d ''SKILL.md'')"
    and h: "\<forall>h \<in> HELPER_DIRS. is_dir fs (child d h) = is_dir fs' (child d h)"
    by (simp_all add: locator_same_def)
  have "located fs d = located fs' d"
    by (simp add: located_def descriptor_def r find_helper_dirs_same [OF h])
  with True f show ?thesis by (simp add: find_skill_in_dir_Some)
qed

lemma scan_group_same:
  assumes "\<forall>c \<in> set items. is_dir fs c = is_dir fs' c
             \<and> (is_dir fs c \<and> \<not> should_ignore c \<longrightarrow> locator_same fs fs' c)"
  shows "scan_group fs items st = scan_group fs' items st"
  using assms
proof (induction items arbitrary: st)
  case Nil
  show ?case by simp
next
  case (Cons c items)
  obtain skills lg where st: "st = (skills, lg)" by (cases st)
  have d: "is_dir fs c = is_dir fs' c" using Cons.prems by simp
  have ih: "\<And>st'. scan_group fs items st' = scan_group fs' items st'"
    using Cons.IH Cons.prems by simp
  show ?case
  proof (cases "is_dir fs c \<and> \<not> should_ignore c")
    case False
    with d show ?thesis by (auto simp: st ih)
  next
    case True
    then have f: "find_skill_in_dir fs c = find_skill_in_dir fs' c"
      using Cons.prems by (simp add: find_skill_in_dir_same)
    have d': "is_dir fs' c" using True d by simp
    show ?thesis using True d' by (simp add: st ih f split: option.splits)
  qed
qed

lemma scan_items_same:
  assumes "\<forall>i \<in> set items. is_dir fs i = is_dir fs' i
     \<and> (is_dir fs i \<and> \<not> should_ignore i \<longrightarrow>
          locator_same fs fs' i
          \<and> (find_skill_in_dir fs i = None \<longrightarrow>
               listdir fs i = listdir fs' i
               \<and> (\<forall>g \<in> set (listdir fs i).
                     is_dir fs (child i g) = is_dir fs' (child i g)
                     \<and> (is_dir fs (child i g) \<and> \<not> should_ignore (child i g) \<longrightarrow>
                          locator_same fs fs' (child i g)))))"
  shows "scan_items fs items st = scan_items fs' items st"
  using assms
proof (induction items arbitrary: st)
  case Nil
  show ?case by simp
next
  case (Cons i items)
  obtain skills lg where st: "st = (skills, lg)" by (cases st)
  have d: "is_dir fs i = is_dir fs' i" using Cons.prems by simp
  have ih: "\<And>st'. scan_items fs items st' = scan_items fs' items st'"
    using Cons.IH Cons.prems by simp
  show ?case
  proof (cases "is_dir fs i \<and> \<not> should_ignore i")
    case False
    with d show ?thesis by (auto simp: st ih)
  next
    case True
    then have l: "locator_same fs fs' i" using Cons.prems by simp
    then have f: "find_skill_in_dir fs i = find_skill_in_dir fs' i"
      by (rule find_skill_in_dir_same)
    have d': "is_dir fs' i" using True d by simp
    show ?thesis
    proof (cases "find_skill_in_dir fs i")
      case (Some skill)
      then have f': "find_skill_in_dir fs' i = Some skill" using f by simp
      show ?thesis using True d' by (simp add: st ih Some f')
    next
      case None
      with True Cons.prems have ls: "listdir fs i = listdir fs' i"
        and gs: "\<forall>g \<in> set (listdir fs i).
                     is_dir fs (child i g) = is_dir fs' (child i g)
                     \<and> (is_dir fs (child i g) \<and> \<not> should_ignore (child i g) \<longrightarrow>
                          locator_same fs fs' (child i g))"
        by simp_all
      have it: "iterdir fs i = iterdir fs' i" by (simp add: iterdir_def ls)
      have "\<forall>c \<in> set (sort (iterdir fs' i)). is_dir fs c = is_dir fs' c
             \<and> (is_dir fs c \<and> \<not> should_ignore c \<longrightarrow> locator_same fs fs' c)"
        using gs by (auto simp: iterdir_def ls [symmetric])
      then have grp: "\<And>st'. scan_group fs (sort (iterdir fs' i)) st'
           = scan_group fs' (sort (iterdir fs' i)) st'"
        by (rule scan_group_same)
      have n': "find_skill_in_dir fs' i = None" using None f by simp
      show ?thesis using True d' by (simp add: st ih it None n' grp)
    qed
  qed
qed

lemma scan_skills_same:
  assumes "same_where_scanned root fs fs'"
  shows "scan_skills fs root lg = scan_skills fs' root lg"
proof (cases "is_dir fs root")
  case False
  with assms have "\<not> is_dir fs' root" by (simp add: same_where_scanned_def)
  with False show ?thesis by (simp add: scan_skills_def)
next
  case True
  with assms have d: "is_dir fs' root" and ls: "listdir fs root = listdir fs' root"
    by (simp_all add: same_where_scanned_def)
  have it: "iterdir fs root = iterdir fs' root" by (simp add: iterdir_def ls)
  have "\<forall>i \<in> set (sort (iterdir fs' root)). is_dir fs i = is_dir fs' i
     \<and> (is_dir fs i \<and> \<not> should_ignore i \<longrightarrow>
          locator_same fs fs' i
          \<and> (find_skill_in_dir fs i = None \<longrightarrow>
               listdir fs i = listdir fs' i
               \<and> (\<forall>g \<in> set (listdir fs i).
                     is_dir fs (child i g) = is_dir fs' (child i g)
                     \<and> (is_dir fs (child i g) \<and> \<not> should_ignore (child i g) \<longrightarrow>
                          locator_same fs fs' (child i g)))))"
    using assms True by (auto simp: same_where_scanned_def iterdir_def ls [symmetric])
  then have "scan_items fs (sort (iterdir fs' root)) ([], lg)
      = scan_items fs' (sort (iterdir fs' root)) ([], lg)"
    by (rule scan_items_same)
  with True d show ?thesis by (simp add: scan_skills_def it)
qed

text \<open>
  Claim C2. For every root: when it is no directory the scan returns the empty list (and
  logs an error). Otherwise it returns, for the entries of the root that are directories
  and not ignored, in the order of their names, the record of the entry when the locator
  gives one, and else the records that the locator gives for the entries of this entry
  that are directories and not ignored, in the order of their names. Its result is the
  same on two file systems that are alike where the scan looks: nothing is asked about
  the entries of a skill or of an ignored directory, and nothing two levels below the
  root but the descriptor and the helper directories of a candidate.
\<close>

theorem scan_skills_two_levels:
  "(\<not> is_dir fs root \<longrightarrow>
      scan_skills fs root lg
        = ([], lg @ [Error (''Skills directory does not exist: '' @ str_path root)]))
   \<and> (is_dir fs root \<longrightarrow> fst (scan_skills fs root lg) = scanned fs root)
   \<and> sort (iterdir fs p) = map (child p) (sort (listdir fs p))
   \<and> (same_where_scanned root fs fs' \<longrightarrow> scan_skills fs root lg = scan_skills fs' root lg)"
proof (intro conjI impI)
  assume "\<not> is_dir fs root"
  then show "scan_skills fs root lg
        = ([], lg @ [Error (''Skills directory does not exist: '' @ str_path root)])"
    by (simp add: scan_skills_def)
next
  assume "is_dir fs root"
  then show "fst (scan_skills fs root lg) = scanned fs root"
    by (simp add: scan_skills_records)
next
  show "sort (iterdir fs p) = map (child p) (sort (listdir fs p))"
    by (rule sort_iterdir)
next
  assume "same_where_scanned root fs fs'"
  then show "scan_skills fs root lg = scan_skills fs' root lg"
    by (rule scan_skills_same)
qed

theorem scan_skills_two_levels_witness:
  "is_dir demo_fs demo_root
   \<and> fst (scan_skills demo_fs demo_root []) = [demo_alpha, demo_beta, demo_empty, demo_dup]
   \<and> same_where_scanned demo_root demo_fs demo_fs2
   \<and> is_file demo_fs (demo_root @ [''group'', ''y'', ''deep'', ''SKILL.md''])
   \<and> \<not> is_file demo_fs2 (demo_root @ [''group'', ''y'', ''deep'', ''SKILL.md''])
   \<and> scan_skills demo_fs demo_root [] = scan_skills demo_fs2 demo_root []
   \<and> \<not> is_dir demo_fs (demo_root @ [''nowhere''])
   \<and> fst (scan_skills demo_fs (demo_root @ [''nowhere'']) []) = []"
proof -
  have d: "is_dir demo_fs demo_root" by code_simp
  have s: "scanned demo_fs demo_root = [demo_alpha, demo_beta, demo_empty, demo_dup]"
    by code_simp
  have w: "same_where_scanned demo_root demo_fs demo_fs2" by code_simp
  have f: "is_file demo_fs (demo_root @ [''group'', ''y'', ''deep'', ''SKILL.md''])"
    "\<not> is_file demo_fs2 (demo_root @ [''group'', ''y'', ''deep'', ''SKILL.md''])"
    by code_simp+
  have n: "\<not> is_dir demo_fs (demo_root @ [''nowhere''])" by code_simp
  have 1: "fst (scan_skills demo_fs demo_root []) = [demo_alpha, demo_beta, demo_empty, demo_dup]"
    using scan_skills_two_levels [of demo_fs demo_root "[]" demo_root demo_fs2] d s
    by simp
  have 2: "scan_skills demo_fs demo_root [] = scan_skills demo_fs2 demo_root []"
    using scan_skills_two_levels [of demo_fs demo_root "[]" demo_root demo_fs2] w
    by simp
  have 3: "fst (scan_skills demo_fs (demo_root @ [''nowhere'']) []) = []"
    using scan_skills_two_levels [of demo_fs "demo_root @ [''nowhere'']" "[]" demo_root demo_fs] n
    by simp
  show ?thesis by (intro conjI d 1 w f 2 n 3)
qed

section \<open>The index generator\<close>

lemma join_trailing:
  "xs \<noteq> [] \<Longrightarrow> join sep (xs @ [[]]) = concat (map (\<lambda>x. x @ sep) xs)"
  by (induction sep xs rule: join.induct) simp_all

text \<open>The content is the header, an empty line, and a line for every record in the
  order of the names, each ended by a line feed.\<close>

lemma generate_router_content_lines:
  "generate_router_content home skills =
     ''# Skill Router'' @ [CHR 0x0A] @ [CHR 0x0A]
     @ concat (map (\<lambda>s. router_line home s @ [CHR 0x0A]) (sort_key name skills))"
proof -
  have "join [CHR 0x0A] ((''# Skill Router'' # [] # map (router_line home) (sort_key name skills)) @ [[]])
      = concat (map (\<lambda>x. x @ [CHR 0x0A])
          (''# Skill Router'' # [] # map (router_line home) (sort_key name skills)))"
    by (rule join_trailing) simp
  then show ?thesis
    by (simp add: generate_router_content_def comp_def)
qed

text \<open>The shorthand replaces the home directory where the path begins with it, and leaves
  a path alone in which the text of the home directory does not occur.\<close>

lemma replace_from_skip:
  "replace_from (length xs) old new (xs @ s) = replace_from 0 old new s"
  by (induction xs) simp_all

lemma replace_prefix:
  assumes "old \<noteq> []"
  shows "replace old new (old @ s) = new @ replace old new s"
proof -
  obtain c cs where o: "old = c # cs" using assms by (cases old) auto
  have "replace_from 0 old new (c # cs @ s) = new @ replace_from (length cs) old new (cs @ s)"
    by (simp add: o)
  then show ?thesis
    using assms by (simp add: replace_def o replace_from_skip)
qed

lemma replace_from_absent:
  "\<not> sublist old s \<Longrightarrow> replace_from 0 old new s = s"
proof (induction s)
  case Nil
  show ?case by simp
next
  case (Cons c s)
  have "\<not> prefix old (c # s)" using Cons.prems by (auto simp: sublist_Cons_right)
  moreover have "\<not> sublist old s" using Cons.prems by (auto simp: sublist_Cons_right)
  ultimately show ?case using Cons.IH by simp
qed

text \<open>
  Claim C4, at two inputs. With the home directory \<open>/root\<close> and a skill in the folder
  \<open>rootcause\<close> of the default skills directory, the line of the index is
  \<open>rootcause: ~/.agents/skills~cause/\<close>: the shorthand also replaces the text of the
  home directory inside the path. With the home directory \<open>/home/u\<close> and a skill in
  \<open>/srv/home/u/skills/x\<close>, a path that does not begin with the home directory, the line
  is \<open>x: /srv~/skills/x/\<close>.
\<close>

theorem generate_router_content_replaces_inside:
  "generate_router_content [''/'', ''root''] [demo_rootcause]
     = ''# Skill Router\<newline>\<newline>rootcause: ~/.agents/skills~cause/\<newline>''
   \<and> str_path (path demo_rootcause) = ''/root/.agents/skills/rootcause''
   \<and> generate_router_content [''/'', ''home'', ''u''] [demo_srv]
     = ''# Skill Router\<newline>\<newline>x: /srv~/skills/x/\<newline>''
   \<and> str_path (path demo_srv) = ''/srv/home/u/skills/x''
   \<and> \<not> prefix (str_path [''/'', ''home'', ''u'']) (str_path (path demo_srv))"
  by code_simp

section \<open>The top-level flow\<close>

lemma main_nothing:
  assumes "discovered e a = []"
  shows "main e a =
     (1, \<lparr>logged = shown (args_verbose a)
                     (snd (scan_skills (env_fs e) (args_skills_dir a)
                             [Info (''Scanning: '' @ str_path (args_skills_dir a))])
                      @ [Warning ''No skills found'']),
          printed = [], written = []\<rparr>)"
proof -
  obtain skills0 lg1 where s:
    "scan_skills (env_fs e) (args_skills_dir a)
       [Info (''Scanning: '' @ str_path (args_skills_dir a))] = (skills0, lg1)"
    by (cases "scan_skills (env_fs e) (args_skills_dir a)
       [Info (''Scanning: '' @ str_path (args_skills_dir a))]")
  have "skills0 = discovered e a"
    using scan_skills_records [of "env_fs e" "args_skills_dir a"
        "[Info (''Scanning: '' @ str_path (args_skills_dir a))]"] s
    by (simp add: discovered_def)
  with assms have "skills0 = []" by simp
  then show ?thesis using s by (simp add: main_def Let_def)
qed

lemma main_something:
  assumes "discovered e a \<noteq> []"
  shows "fst (main e a) =
     (if args_list_skills a then 0
      else if args_validate a then (if warning_total e a \<noteq> 0 then 1 else 0)
      else 0)"
    and "\<not> args_list_skills a \<Longrightarrow> args_validate a \<Longrightarrow>
       printed (snd (main e a)) =
         (if warning_total e a \<noteq> 0
          then [[CHR 0x0A] @ ''Validation completed with '' @ str_nat (warning_total e a)
                  @ '' warning(s)'']
          else [[CHR 0x0A] @ ''All skills valid''])"
proof -
  obtain skills0 lg1 where s:
    "scan_skills (env_fs e) (args_skills_dir a)
       [Info (''Scanning: '' @ str_path (args_skills_dir a))] = (skills0, lg1)"
    by (cases "scan_skills (env_fs e) (args_skills_dir a)
       [Info (''Scanning: '' @ str_path (args_skills_dir a))]")
  have d: "skills0 = discovered e a"
    using scan_skills_records [of "env_fs e" "args_skills_dir a"
        "[Info (''Scanning: '' @ str_path (args_skills_dir a))]"] s
    by (simp add: discovered_def)
  with assms have n: "skills0 \<noteq> []" by simp
  have w: "sum_list (map (\<lambda>s. length (warnings s)) (first_records skills0)) = warning_total e a"
    by (simp add: warning_total_def d)
  show "fst (main e a) =
     (if args_list_skills a then 0
      else if args_validate a then (if warning_total e a \<noteq> 0 then 1 else 0)
      else 0)"
    using n s
    by (simp add: main_def check_conflicts_eq validate_skills_eq Let_def w split_def)
  show "\<not> args_list_skills a \<Longrightarrow> args_validate a \<Longrightarrow>
       printed (snd (main e a)) =
         (if warning_total e a \<noteq> 0
          then [[CHR 0x0A] @ ''Validation completed with '' @ str_nat (warning_total e a)
                  @ '' warning(s)'']
          else [[CHR 0x0A] @ ''All skills valid''])"
    using n s
    by (simp add: main_def check_conflicts_eq validate_skills_eq Let_def w split_def)
qed

text \<open>
  Claim C6. The exit status of the flow is not zero exactly when the scan discovers no
  record, or when validation is requested without the listing (which is served first) and
  the records that survive the conflict resolver carry at least one warning. In the second
  case the status is 1 and the flow prints the number of these warnings; in the first it
  is 1 and nothing is printed.
\<close>

theorem main_exit_status:
  "(fst (main e a) \<noteq> 0 \<longleftrightarrow>
      discovered e a = []
      \<or> (args_validate a \<and> \<not> args_list_skills a \<and> 1 \<le> warning_total e a))
   \<and> (discovered e a = [] \<longrightarrow> fst (main e a) = 1 \<and> printed (snd (main e a)) = [])
   \<and> (discovered e a \<noteq> [] \<and> args_validate a \<and> \<not> args_list_skills a
        \<and> 1 \<le> warning_total e a \<longrightarrow>
        fst (main e a) = 1
        \<and> printed (snd (main e a))
            = [[CHR 0x0A] @ ''Validation completed with '' @ str_nat (warning_total e a)
                 @ '' warning(s)''])"
proof (cases "discovered e a = []")
  case True
  then show ?thesis by (simp add: main_nothing)
next
  case False
  have "1 \<le> warning_total e a \<longleftrightarrow> warning_total e a \<noteq> 0" by auto
  then show ?thesis
    using False main_something [OF False] by simp
qed
theorem main_exit_status_witness:
  "discovered solo_env solo_validate \<noteq> []
   \<and> args_validate solo_validate \<and> \<not> args_list_skills solo_validate
   \<and> warning_total solo_env solo_validate = 1
   \<and> fst (main solo_env solo_validate) = 1
   \<and> printed (snd (main solo_env solo_validate))
       = [''\<newline>Validation completed with 1 warning(s)'']
   \<and> discovered demo_env demo_nowhere = []
   \<and> fst (main demo_env demo_nowhere) = 1"
proof -
  have d: "discovered solo_env solo_validate \<noteq> []" by code_simp
  have v: "args_validate solo_validate" "\<not> args_list_skills solo_validate" by code_simp+
  have w: "warning_total solo_env solo_validate = 1" by code_simp
  have n: "discovered demo_env demo_nowhere = []" by code_simp
  have s: "str_nat (Suc 0) = ''1''" by code_simp
  have 1: "fst (main solo_env solo_validate) = 1
     \<and> printed (snd (main solo_env solo_validate))
       = [''\<newline>Validation completed with 1 warning(s)'']"
    using main_exit_status [of solo_env solo_validate] d v w by (simp add: s)
  have 2: "fst (main demo_env demo_nowhere) = 1"
    using main_exit_status [of demo_env demo_nowhere] n by simp
  show ?thesis using d v w n 1 2 by simp
qed

section \<open>The metadata parser\<close>





























text \<open>
  A block whose body is blank: the greedy whitespace of the pattern runs over the body
  and the line feed of the closing line, and the body that is parsed is text after the
  block.
\<close>

lemma parse_frontmatter_blank_body:
  "spec_fenced_block ''---\<newline>\<newline>---\<newline>x: y\<newline>---\<newline>'' = Some []
   \<and> parse_frontmatter ''---\<newline>\<newline>---\<newline>x: y\<newline>---\<newline>'' = [(''x'', ''y'')]"
  by code_simp



text \<open>
  Claim C9. The parser is a function of the text alone: it reads no state and its
  dictionary is built in the order of the lines. So for every text that begins with a
  fenced block, two applications to the same text give the same dictionary (the same
  entries in the same order), and so the same mapping.
\<close>

theorem parse_frontmatter_deterministic:
  assumes "\<forall>c \<in> set ws. is_space c"
    and "text = ''---'' @ ws @ ''\<newline>'' @ body @ ''\<newline>---'' @ rest"
    and "text' = text"
  shows "parse_frontmatter text' = parse_frontmatter text
     \<and> map_of (parse_frontmatter text') = map_of (parse_frontmatter text)"
  using assms(3) by simp

theorem parse_frontmatter_deterministic_witness:
  "list_all is_space []
   \<and> demo_alpha_text
       = ''---'' @ [] @ ''\<newline>'' @ ''name: alpha\<newline>description: does X'' @ ''\<newline>---''
           @ ''\<newline># Alpha\<newline>''
   \<and> parse_frontmatter demo_alpha_text = parse_frontmatter demo_alpha_text
   \<and> parse_frontmatter demo_alpha_text = [(''name'', ''alpha''), (''description'', ''does X'')]"
proof -
  have w: "\<forall>c \<in> set []. is_space c" by simp
  have t: "demo_alpha_text
       = ''---'' @ [] @ ''\<newline>'' @ ''name: alpha\<newline>description: does X'' @ ''\<newline>---''
           @ ''\<newline># Alpha\<newline>''"
    by (simp add: demo_alpha_text_def)
  have v: "parse_frontmatter demo_alpha_text = [(''name'', ''alpha''), (''description'', ''does X'')]"
    by code_simp
  from parse_frontmatter_deterministic [OF w t refl]
  have "parse_frontmatter demo_alpha_text = parse_frontmatter demo_alpha_text" by simp
  with w t v show ?thesis by simp
qed

end
